theory Spec2Isabelle
  imports Main "HOL-Library.Word" "HOL-Library.Sublist" "HOL-Library.AList"
begin

text \<open>
  The multipart decoder of the study-resource portal: the middleware
  \<^verbatim>\<open>uploadMiddleware\<close> of \<^verbatim>\<open>src/server/routes.ts\<close> (lines 80 to 153), which reads
  the boundary from the content type, splits the body at the delimiter and stores every
  part as a field or as a file. The first sections are the middleware as it is written,
  in the order of the source; the later ones prove what it does.
\<close>

section \<open>JavaScript strings\<close>

text \<open>
  The upload middleware of \<^verbatim>\<open>src/server/routes.ts\<close> parses a multipart body with the
  string methods of JavaScript. A JavaScript string is a sequence of 16-bit code units, and
  every method used here (\<^verbatim>\<open>split\<close>, \<^verbatim>\<open>includes\<close>, \<^verbatim>\<open>lastIndexOf\<close>,
  \<^verbatim>\<open>substring\<close>, \<^verbatim>\<open>trim\<close>, \<^verbatim>\<open>match\<close> without the \<^verbatim>\<open>u\<close> flag) works on code units.
\<close>

type_synonym jsstring = "16 word list"

definition js :: "string \<Rightarrow> jsstring" where
  "js s = map (\<lambda>c. of_nat (of_char c)) s"

definition CRLF :: jsstring where
  "CRLF = [0x0D, 0x0A]"

definition quote :: "16 word" where
  "quote = 0x22"

definition semicolon :: "16 word" where
  "semicolon = 0x3B"

text \<open>\<^verbatim>\<open>s.indexOf(x)\<close>: the least index at which \<open>x\<close> occurs, \<open>None\<close> for -1.\<close>

fun indexOf :: "'a list \<Rightarrow> 'a list \<Rightarrow> nat option" where
  "indexOf [] x = (if x = [] then Some 0 else None)"
| "indexOf (c # cs) x =
     (if prefix x (c # cs) then Some 0 else map_option Suc (indexOf cs x))"

text \<open>\<^verbatim>\<open>s.includes(x)\<close>.\<close>

definition includesStr :: "'a list \<Rightarrow> 'a list \<Rightarrow> bool" where
  "includesStr s x \<longleftrightarrow> indexOf s x \<noteq> None"

text \<open>\<^verbatim>\<open>s.lastIndexOf(x)\<close>: the greatest index at which \<open>x\<close> occurs, or -1.\<close>

fun lastIndexOf :: "'a list \<Rightarrow> 'a list \<Rightarrow> int" where
  "lastIndexOf [] x = (if x = [] then 0 else - 1)"
| "lastIndexOf (c # cs) x =
     (let r = lastIndexOf cs x
      in if 0 \<le> r then r + 1 else if prefix x (c # cs) then 0 else - 1)"

text \<open>
  \<^verbatim>\<open>s.substring(start, stop)\<close>: both arguments are clamped to \<open>[0, length]\<close> (so -1
  becomes 0) and swapped when the first exceeds the second.
\<close>

definition substring :: "'a list \<Rightarrow> int \<Rightarrow> int \<Rightarrow> 'a list" where
  "substring s start stop =
     (let len = int (length s);
          finalStart = min (max start 0) len;
          finalEnd = min (max stop 0) len;
          from = min finalStart finalEnd;
          to = max finalStart finalEnd
      in take (nat (to - from)) (drop (nat from) s))"

text \<open>
  \<^verbatim>\<open>s.split(sep)\<close> with a string separator: the pieces between the successive
  occurrences of \<open>sep\<close>, found left to right, each search starting after the previous
  occurrence. With the empty separator the string falls into its code units; the
  middleware never splits at an empty separator, and \<open>splitAt\<close> is for the others.
\<close>

function splitAt :: "'a list \<Rightarrow> 'a list \<Rightarrow> 'a list list" where
  "splitAt s sep =
     (if sep = [] then [s]
      else case indexOf s sep of
             None \<Rightarrow> [s]
           | Some j \<Rightarrow> take j s # splitAt (drop (j + length sep) s) sep)"
  by pat_completeness auto
termination
proof (relation "measure (\<lambda>(s, sep). length s)")
  fix s sep :: "'a list" and j :: nat
  assume "sep \<noteq> []" and "indexOf s sep = Some j"
  then have "s \<noteq> []" by (cases s) auto
  with \<open>sep \<noteq> []\<close> show "((drop (j + length sep) s, sep), (s, sep)) \<in> measure (\<lambda>(s, sep). length s)"
    by (cases s; cases sep) auto
qed simp

declare splitAt.simps [simp del]

definition split :: "'a list \<Rightarrow> 'a list \<Rightarrow> 'a list list" where
  "split s sep = (if sep = [] then map (\<lambda>c. [c]) s else splitAt s sep)"

text \<open>\<^verbatim>\<open>xs.join(sep)\<close>.\<close>

fun join :: "'a list list \<Rightarrow> 'a list \<Rightarrow> 'a list" where
  "join [] sep = []"
| "join [x] sep = x"
| "join (x # y # ys) sep = x @ sep @ join (y # ys) sep"

text \<open>
  \<^verbatim>\<open>s.trim()\<close> removes the code units of WhiteSpace and LineTerminator from both ends.
\<close>

definition isWhiteSpace :: "16 word \<Rightarrow> bool" where
  "isWhiteSpace c \<longleftrightarrow>
     c = 0x09 \<or> c = 0x0A \<or> c = 0x0B \<or> c = 0x0C \<or> c = 0x0D \<or> c = 0x20 \<or> c = 0xA0 \<or>
     c = 0x1680 \<or> (0x2000 \<le> c \<and> c \<le> 0x200A) \<or> c = 0x2028 \<or> c = 0x2029 \<or>
     c = 0x202F \<or> c = 0x205F \<or> c = 0x3000 \<or> c = 0xFEFF"

definition trim :: "jsstring \<Rightarrow> jsstring" where
  "trim s = rev (dropWhile isWhiteSpace (rev (dropWhile isWhiteSpace s)))"

subsection \<open>The three regular expressions\<close>

text \<open>
  \<^verbatim>\<open>/filename="([^"]+)"/\<close> and \<^verbatim>\<open>/name="([^"]+)"/\<close> are the literal \<open>lit\<close>, a
  quote, a greedy non-empty run of code units other than the quote, and a quote.
  Anchored at the start of \<open>s\<close> the run is the longest one, and the match succeeds when
  that run is not empty and a code unit (then a quote) follows it: a shorter run is
  followed by a code unit of the run, never by a quote. The result is capture group 1.
\<close>

definition quotedAt :: "jsstring \<Rightarrow> jsstring \<Rightarrow> jsstring option" where
  "quotedAt lit s =
     (if prefix (lit @ [quote]) s then
        (let rest = drop (length lit + 1) s;
             run = takeWhile (\<lambda>c. c \<noteq> quote) rest
         in if run \<noteq> [] \<and> length run < length rest then Some run else None)
      else None)"

text \<open>\<^verbatim>\<open>s.match(re)\<close> tries the start positions from left to right.\<close>

fun searchQuoted :: "jsstring \<Rightarrow> jsstring \<Rightarrow> jsstring option" where
  "searchQuoted lit [] = quotedAt lit []"
| "searchQuoted lit (c # cs) =
     (case quotedAt lit (c # cs) of
        Some m \<Rightarrow> Some m
      | None \<Rightarrow> searchQuoted lit cs)"

definition filenameMatch :: "jsstring \<Rightarrow> jsstring option" where
  "filenameMatch headerStr = searchQuoted (js ''filename='') headerStr"

definition nameMatch :: "jsstring \<Rightarrow> jsstring option" where
  "nameMatch headerStr = searchQuoted (js ''name='') headerStr"

text \<open>
  \<^verbatim>\<open>/boundary=(?:"([^"]+)"|([^;]+))/\<close>: after the literal, the quoted alternative is
  tried first; when it fails, the second alternative takes the longest non-empty run of
  code units other than the semicolon. The result is the pair of capture groups 1 and 2,
  \<open>None\<close> for \<^verbatim>\<open>undefined\<close>.
\<close>

definition boundaryAt :: "jsstring \<Rightarrow> (jsstring option \<times> jsstring option) option" where
  "boundaryAt s =
     (if prefix (js ''boundary='') s then
        (case quotedAt (js ''boundary='') s of
           Some q \<Rightarrow> Some (Some q, None)
         | None \<Rightarrow>
             (let run = takeWhile (\<lambda>c. c \<noteq> semicolon) (drop 9 s)
              in if run \<noteq> [] then Some (None, Some run) else None))
      else None)"

fun matchBoundary :: "jsstring \<Rightarrow> (jsstring option \<times> jsstring option) option" where
  "matchBoundary [] = boundaryAt []"
| "matchBoundary (c # cs) =
     (case boundaryAt (c # cs) of
        Some m \<Rightarrow> Some m
      | None \<Rightarrow> matchBoundary cs)"

text \<open>
  \<^verbatim>\<open>a || b\<close> on values that are a string or \<^verbatim>\<open>undefined\<close>: the empty string and
  \<^verbatim>\<open>undefined\<close> are falsy. A template literal renders \<^verbatim>\<open>undefined\<close> as that word.
\<close>

definition orElse :: "jsstring option \<Rightarrow> jsstring option \<Rightarrow> jsstring option" where
  "orElse a b = (case a of None \<Rightarrow> b | Some x \<Rightarrow> if x = [] then b else Some x)"

definition template :: "jsstring option \<Rightarrow> jsstring" where
  "template v = (case v of None \<Rightarrow> js ''undefined'' | Some s \<Rightarrow> s)"

section \<open>Objects, buffers and the environment\<close>

text \<open>
  \<^verbatim>\<open>files\<close> and \<^verbatim>\<open>fields\<close> are plain objects created by \<^verbatim>\<open>{}\<close>; the list holds
  their own properties. An assignment \<^verbatim>\<open>obj[k] = v\<close> replaces the value of an own
  property or adds one, except for the key \<^verbatim>\<open>__proto__\<close>: that assignment runs the
  setter inherited from \<^verbatim>\<open>Object.prototype\<close> and creates no own property.
\<close>

type_synonym 'v obj = "(jsstring \<times> 'v) list"

definition setProp :: "'v obj \<Rightarrow> jsstring \<Rightarrow> 'v \<Rightarrow> 'v obj" where
  "setProp obj k v = (if k = js ''__proto__'' then obj else AList.update k v obj)"

text \<open>
  The object stored for a file, with its properties \<^verbatim>\<open>filename\<close>,
  \<^verbatim>\<open>originalFilename\<close>, \<^verbatim>\<open>size\<close> and \<^verbatim>\<open>path\<close>.
\<close>

record fileRecord =
  rec_filename :: jsstring
  rec_originalFilename :: jsstring
  rec_size :: nat
  rec_path :: jsstring

text \<open>\<^verbatim>\<open>Buffer.from(s, 'binary')\<close> keeps the low byte of every code unit.\<close>

definition bufferFromBinary :: "jsstring \<Rightarrow> 8 word list" where
  "bufferFromBinary s = map ucast s"

text \<open>\<^verbatim>\<open>buf.toString('hex')\<close>: two lower-case hexadecimal digits for every byte.\<close>

definition hexDigit :: "nat \<Rightarrow> 16 word" where
  "hexDigit d = (if d < 10 then 0x30 + of_nat d else 0x61 + of_nat (d - 10))"

definition toHex :: "8 word list \<Rightarrow> jsstring" where
  "toHex bs = concat (map (\<lambda>b. [hexDigit (unat b div 16), hexDigit (unat b mod 16)]) bs)"

datatype exn = Error string | TypeError string | SystemError string

text \<open>
  The functions of Node's library that the middleware calls are parameters:
  \<^verbatim>\<open>path.extname\<close>, \<^verbatim>\<open>path.join\<close>, \<^verbatim>\<open>crypto.randomBytes\<close>, which draws from the
  world \<open>'w\<close>, and \<^verbatim>\<open>fs.writeFileSync\<close>, which changes the world and may throw.
\<close>

record 'w env =
  extname :: "jsstring \<Rightarrow> jsstring"
  pathJoin :: "jsstring \<Rightarrow> jsstring \<Rightarrow> jsstring"
  randomBytes :: "nat \<Rightarrow> 'w \<Rightarrow> 8 word list \<times> 'w"
  writeFileSync :: "jsstring \<Rightarrow> 8 word list \<Rightarrow> 'w \<Rightarrow> exn option \<times> 'w"

section \<open>The upload middleware\<close>

text \<open>The variables \<^verbatim>\<open>files\<close> and \<^verbatim>\<open>fields\<close> of the handler, and the world.\<close>

record 'w state =
  filesObj :: "fileRecord obj"
  fieldsObj :: "jsstring obj"
  world :: 'w

text \<open>The test of line 106 that sends the loop to its next iteration.\<close>

definition skipped :: "jsstring \<Rightarrow> bool" where
  "skipped part \<longleftrightarrow> trim part = [] \<or> includesStr part (js ''--'' @ CRLF)"

text \<open>
  Lines 115 to 132, the block that stores a file: the result is the state after it and
  the exception it threw, if any.
\<close>

definition storeFile ::
  "'w env \<Rightarrow> jsstring \<Rightarrow> jsstring \<Rightarrow> jsstring \<Rightarrow> 'w state \<Rightarrow> 'w state \<times> exn option" where
  "storeFile env uploadsDir originalFilename bodyContent st =
     (let extension = extname env originalFilename;
          (bytes, w1) = randomBytes env 16 (world st);
          filename = toHex bytes @ extension;
          filepath = pathJoin env uploadsDir filename;
          fileContent = substring bodyContent 0 (lastIndexOf bodyContent CRLF);
          buffer = bufferFromBinary fileContent;
          (thrown, w2) = writeFileSync env filepath buffer w1
      in case thrown of
           Some e \<Rightarrow> (st\<lparr>world := w2\<rparr>, Some e)
         | None \<Rightarrow>
             (st\<lparr>filesObj := setProp (filesObj st) originalFilename
                    \<lparr>rec_filename = filename, rec_originalFilename = originalFilename,
                     rec_size = length buffer, rec_path = filepath\<rparr>,
                  world := w2\<rparr>, None))"

text \<open>Lines 138 to 140, the block that stores a field.\<close>

definition storeField :: "jsstring \<Rightarrow> jsstring \<Rightarrow> 'w state \<Rightarrow> 'w state \<times> exn option" where
  "storeField fieldName bodyContent st =
     (st\<lparr>fieldsObj := setProp (fieldsObj st) fieldName
            (substring bodyContent 0 (lastIndexOf bodyContent CRLF))\<rparr>, None)"

text \<open>
  The body of \<^verbatim>\<open>for (const part of parts)\<close>. The destructuring of an empty array
  would leave \<^verbatim>\<open>headerStr\<close> undefined and the call of its method would throw.
\<close>

definition loopBody :: "'w env \<Rightarrow> jsstring \<Rightarrow> jsstring \<Rightarrow> 'w state \<Rightarrow> 'w state \<times> exn option" where
  "loopBody env uploadsDir part st =
     (if skipped part then (st, None)
      else
        case split part (CRLF @ CRLF) of
          [] \<Rightarrow> (st, Some (TypeError ''headerStr is undefined''))
        | headerStr # bodyParts \<Rightarrow>
            (let bodyContent = join bodyParts (CRLF @ CRLF) in
             if includesStr headerStr (js ''filename='') then
               (case filenameMatch headerStr of
                  None \<Rightarrow> (st, None)
                | Some originalFilename \<Rightarrow>
                    storeFile env uploadsDir originalFilename bodyContent st)
             else
               (case nameMatch headerStr of
                  None \<Rightarrow> (st, None)
                | Some fieldName \<Rightarrow> storeField fieldName bodyContent st)))"

text \<open>The loop: an exception leaves it at once.\<close>

fun forParts :: "'w env \<Rightarrow> jsstring \<Rightarrow> jsstring list \<Rightarrow> 'w state \<Rightarrow> 'w state \<times> exn option" where
  "forParts env uploadsDir [] st = (st, None)"
| "forParts env uploadsDir (part # parts) st =
     (case loopBody env uploadsDir part st of
        (st', Some e) \<Rightarrow> (st', Some e)
      | (st', None) \<Rightarrow> forParts env uploadsDir parts st')"

text \<open>
  What the middleware leaves behind: \<^verbatim>\<open>req.body\<close> and \<^verbatim>\<open>req.files\<close> (\<open>None\<close> while
  unassigned), whether \<^verbatim>\<open>next()\<close> was called, the response sent (status and message),
  the exception written to the console, and the world.
\<close>

record 'w outcome =
  body :: "jsstring obj option"
  reqFiles :: "fileRecord obj option"
  nextCalled :: bool
  response :: "(nat \<times> jsstring) option"
  logged :: "exn option"
  finalWorld :: 'w

text \<open>The \<^verbatim>\<open>catch\<close> block.\<close>

definition caught :: "exn \<Rightarrow> 'w \<Rightarrow> 'w outcome" where
  "caught err w =
     \<lparr>body = None, reqFiles = None, nextCalled = False,
      response = Some (400, js ''Error processing form data''),
      logged = Some err, finalWorld = w\<rparr>"

text \<open>
  The handler of the \<^verbatim>\<open>end\<close> event, on the content type header (\<open>None\<close> when the
  request has none) and the accumulated \<^verbatim>\<open>data\<close>.
\<close>

definition onEnd :: "'w env \<Rightarrow> jsstring \<Rightarrow> jsstring option \<Rightarrow> jsstring \<Rightarrow> 'w \<Rightarrow> 'w outcome" where
  "onEnd env uploadsDir contentType data w =
     (case (case contentType of None \<Rightarrow> None | Some ct \<Rightarrow> matchBoundary ct) of
        None \<Rightarrow> caught (Error ''No boundary found'') w
      | Some boundaryMatch \<Rightarrow>
          (let boundary = orElse (fst boundaryMatch) (snd boundaryMatch);
               parts = split data (js ''--'' @ template boundary);
               (st, thrown) = forParts env uploadsDir parts \<lparr>filesObj = [], fieldsObj = [], world = w\<rparr>
           in case thrown of
                Some e \<Rightarrow> caught e (world st)
              | None \<Rightarrow>
                  \<lparr>body = Some (fieldsObj st), reqFiles = Some (filesObj st), nextCalled = True,
                   response = None, logged = None, finalWorld = world st\<rparr>))"

text \<open>
  The middleware: a request that is not \<^verbatim>\<open>multipart/form-data\<close> goes to \<^verbatim>\<open>next()\<close>
  untouched; otherwise the chunks are appended to \<^verbatim>\<open>data\<close> and the handler runs.
  A chunk is here the string that \<^verbatim>\<open>data += chunk\<close> appends for it.
\<close>

definition uploadMiddleware ::
  "'w env \<Rightarrow> jsstring \<Rightarrow> jsstring option \<Rightarrow> jsstring list \<Rightarrow> 'w \<Rightarrow> 'w outcome" where
  "uploadMiddleware env uploadsDir contentType chunks w =
     (if \<not> (case contentType of None \<Rightarrow> False
             | Some ct \<Rightarrow> includesStr ct (js ''multipart/form-data''))
      then \<lparr>body = None, reqFiles = None, nextCalled = True, response = None,
            logged = None, finalWorld = w\<rparr>
      else onEnd env uploadsDir contentType (foldl (@) [] chunks) w)"

section \<open>Well-formed bodies\<close>














section \<open>A concrete environment\<close>

text \<open>
  An environment on which the definitions can be run: the world is a counter of random
  draws and the list of files written; the k-th draw is sixteen bytes of value k.
  \<open>fullDiskEnv\<close> is the same environment with a disk on which every write throws.
\<close>

type_synonym demoWorld = "nat \<times> (jsstring \<times> 8 word list) list"

definition demoEnv :: "demoWorld env" where
  "demoEnv =
     \<lparr>extname = (\<lambda>s. dropWhile (\<lambda>c. c \<noteq> 0x2E) s),
      pathJoin = (\<lambda>d f. d @ js ''/'' @ f),
      randomBytes = (\<lambda>n w. (replicate n (of_nat (fst w)), (Suc (fst w), snd w))),
      writeFileSync = (\<lambda>p b w. (None, (fst w, snd w @ [(p, b)])))\<rparr>"

definition fullDiskEnv :: "demoWorld env" where
  "fullDiskEnv = demoEnv\<lparr>writeFileSync := (\<lambda>p b w. (Some (SystemError ''ENOSPC''), w))\<rparr>"

definition emptyState :: "demoWorld state" where
  "emptyState = \<lparr>filesObj = [], fieldsObj = [], world = (0, [])\<rparr>"


text \<open>The bodies and parts on which the theorems below are run.\<close>

definition bareBody :: jsstring where
  "bareBody = js ''--B'' @ CRLF @ js ''X-Note: none'' @ CRLF @ CRLF @ js ''z'' @ CRLF @
              js ''--B'' @ CRLF @ js ''name=\"x\"'' @ CRLF @ CRLF @ js ''a'' @ CRLF @
              js ''--B--'' @ CRLF"

definition openField :: jsstring where
  "openField = CRLF @ js ''name=\"x\"'' @ CRLF @ CRLF @ js ''abc''"

definition openFile :: jsstring where
  "openFile = CRLF @ js ''filename=\"f\"'' @ CRLF @ CRLF @ js ''abc''"

definition fieldThenFile :: jsstring where
  "fieldThenFile = js ''--B'' @ CRLF @ js ''name=\"x\"'' @ CRLF @ CRLF @ js ''a'' @ CRLF @
                   js ''--B'' @ CRLF @ js ''filename=\"f\"'' @ CRLF @ CRLF @ js ''b'' @ CRLF @
                   js ''--B--'' @ CRLF"


definition unterminatedBody :: jsstring where
  "unterminatedBody = js ''--B'' @ CRLF @ js ''name=\"x\"'' @ CRLF @ CRLF @ js ''a'' @ CRLF @ js ''b'' @
                      js ''--B--'' @ CRLF"




section \<open>Facts about the string methods\<close>

lemma indexOf_None_iff: "indexOf s x = None \<longleftrightarrow> \<not> sublist x s"
  by (induction s) (auto simp: sublist_Cons_right)

lemma includesStr_iff: "includesStr s x \<longleftrightarrow> sublist x s"
  by (simp add: includesStr_def indexOf_None_iff)


text \<open>\<open>indexOf\<close> gives the first occurrence.\<close>

lemma indexOf_Some_iff:
  "indexOf s x = Some i \<longleftrightarrow>
     i \<le> length s \<and> prefix x (drop i s) \<and> (\<forall>j<i. \<not> prefix x (drop j s))"
proof (induction s arbitrary: i)
  case Nil
  then show ?case by auto
next
  case (Cons c cs)
  show ?case
  proof (cases "prefix x (c # cs)")
    case True
    then show ?thesis by (cases i) auto
  next
    case False
    show ?thesis
    proof (cases i)
      case 0
      with False show ?thesis by simp
    next
      case (Suc k)
      have "(\<forall>j<Suc k. \<not> prefix x (drop j (c # cs))) \<longleftrightarrow> (\<forall>j<k. \<not> prefix x (drop j cs))"
        using False by (auto simp: less_Suc_eq_0_disj)
      with False Suc Cons.IH[of k] show ?thesis by auto
    qed
  qed
qed




lemma splitAt_nonempty: "splitAt s sep \<noteq> []"
proof (cases "sep = []")
  case True
  then show ?thesis by (subst splitAt.simps) simp
next
  case False
  then show ?thesis by (cases "indexOf s sep"; subst splitAt.simps) simp_all
qed

lemma split_nonempty: "sep \<noteq> [] \<Longrightarrow> split s sep \<noteq> []"
  by (simp add: split_def splitAt_nonempty)


lemma split_none: "sep \<noteq> [] \<Longrightarrow> indexOf s sep = None \<Longrightarrow> split s sep = [s]"
  by (subst split_def, subst splitAt.simps) simp



lemma lastIndexOf_ge: "- 1 \<le> lastIndexOf s x"
  by (induction s) (auto simp: Let_def)

lemma lastIndexOf_neg_iff: "lastIndexOf s x < 0 \<longleftrightarrow> \<not> sublist x s"
  by (induction s) (auto simp: Let_def sublist_Cons_right)

text \<open>\<open>lastIndexOf\<close> gives the last occurrence.\<close>

lemma lastIndexOf_none: "lastIndexOf s x < 0 \<Longrightarrow> j \<le> length s \<Longrightarrow> \<not> prefix x (drop j s)"
proof (induction s arbitrary: j)
  case Nil
  then show ?case by (auto split: if_splits)
next
  case (Cons c cs)
  then show ?case by (cases j) (auto simp: Let_def split: if_splits)
qed

lemma lastIndexOf_greatest:
  "0 \<le> lastIndexOf s x \<Longrightarrow>
   nat (lastIndexOf s x) \<le> length s \<and> prefix x (drop (nat (lastIndexOf s x)) s) \<and>
   (\<forall>j. nat (lastIndexOf s x) < j \<and> j \<le> length s \<longrightarrow> \<not> prefix x (drop j s))"
proof (induction s)
  case Nil
  then show ?case by (auto split: if_splits)
next
  case (Cons c cs)
  show ?case
  proof (cases "0 \<le> lastIndexOf cs x")
    case True
    then have n: "nat (lastIndexOf (c # cs) x) = Suc (nat (lastIndexOf cs x))"
      by (simp add: Let_def nat_add_distrib)
    from Cons.IH[OF True]
    have a: "nat (lastIndexOf cs x) \<le> length cs"
      and b: "prefix x (drop (nat (lastIndexOf cs x)) cs)"
      and c: "\<And>j. nat (lastIndexOf cs x) < j \<Longrightarrow> j \<le> length cs \<Longrightarrow> \<not> prefix x (drop j cs)"
      by auto
    have "\<not> prefix x (drop j (c # cs))"
      if "Suc (nat (lastIndexOf cs x)) < j" "j \<le> length (c # cs)" for j
      using that c[of "j - 1"] by (cases j) auto
    with a b show ?thesis unfolding n by auto
  next
    case False
    then have neg: "lastIndexOf cs x < 0" by simp
    with Cons.prems have p: "prefix x (c # cs)" and z: "lastIndexOf (c # cs) x = 0"
      by (auto simp: Let_def split: if_splits)
    have "\<not> prefix x (drop j (c # cs))" if "0 < j" "j \<le> length (c # cs)" for j
      using that lastIndexOf_none[OF neg, of "j - 1"] by (cases j) auto
    with p z show ?thesis by auto
  qed
qed

lemma lastIndexOf_absent: "\<not> includesStr s x \<Longrightarrow> lastIndexOf s x = - 1"
  using lastIndexOf_ge[of s x] lastIndexOf_neg_iff[of s x] by (simp add: includesStr_iff)


lemma substring_minus_one: "substring s 0 (- 1) = []"
  by (simp add: substring_def Let_def)


lemma strip_unterminated: "\<not> includesStr s CRLF \<Longrightarrow> substring s 0 (lastIndexOf s CRLF) = []"
  by (simp add: lastIndexOf_absent substring_minus_one)


lemma quotedAt_sublist: "quotedAt lit s = Some m \<Longrightarrow> sublist lit s"
proof -
  assume "quotedAt lit s = Some m"
  then have "prefix (lit @ [quote]) s" by (auto simp: quotedAt_def split: if_splits)
  then have "prefix lit s" by (rule append_prefixD)
  then show ?thesis by (rule prefix_imp_sublist)
qed

lemma searchQuoted_sublist: "searchQuoted lit s = Some m \<Longrightarrow> sublist lit s"
  by (induction s) (auto split: option.splits dest: quotedAt_sublist simp: sublist_Cons_right)

text \<open>A search finds nothing when no start position has a match.\<close>

lemma searchQuoted_None_positions:
  "searchQuoted lit s = None \<longleftrightarrow> (\<forall>i\<le>length s. quotedAt lit (drop i s) = None)"
proof (induction s)
  case Nil
  then show ?case by simp
next
  case (Cons c cs)
  have "(\<forall>i\<le>length (c # cs). quotedAt lit (drop i (c # cs)) = None) \<longleftrightarrow>
        quotedAt lit (c # cs) = None \<and> (\<forall>i\<le>length cs. quotedAt lit (drop i cs) = None)"
  proof
    assume h: "\<forall>i\<le>length (c # cs). quotedAt lit (drop i (c # cs)) = None"
    have "quotedAt lit (drop 0 (c # cs)) = None" using h by blast
    moreover have "quotedAt lit (drop i cs) = None" if "i \<le> length cs" for i
      using h[rule_format, of "Suc i"] that by simp
    ultimately show "quotedAt lit (c # cs) = None \<and> (\<forall>i\<le>length cs. quotedAt lit (drop i cs) = None)"
      by simp
  next
    assume h: "quotedAt lit (c # cs) = None \<and> (\<forall>i\<le>length cs. quotedAt lit (drop i cs) = None)"
    show "\<forall>i\<le>length (c # cs). quotedAt lit (drop i (c # cs)) = None"
    proof (intro allI impI)
      fix i assume "i \<le> length (c # cs)"
      with h show "quotedAt lit (drop i (c # cs)) = None" by (cases i) auto
    qed
  qed
  with Cons show ?case by (auto split: option.splits)
qed

lemma quotedAt_shift:
  assumes "quotedAt (pre @ lit) s = Some m"
  shows "quotedAt lit (drop (length pre) s) = Some m"
proof -
  from assms have "prefix ((pre @ lit) @ [quote]) s" by (auto simp: quotedAt_def split: if_splits)
  then obtain z where s: "s = pre @ lit @ quote # z" by (auto simp: prefix_def)
  from assms show ?thesis by (simp add: quotedAt_def s)
qed

text \<open>
  A binary string, whose code units are below 256, is what its buffer holds: nothing of
  it is lost on the way to the disk.
\<close>

lemma low_byte:
  assumes "(c :: 16 word) < 0x100"
  shows "(ucast (ucast c :: 8 word) :: 16 word) = c"
proof -
  have "unat c < 256" using assms by (simp add: word_less_nat_alt)
  then have "take_bit 8 (unat c) = unat c" by (simp add: take_bit_nat_eq_self)
  then have "unat (ucast (ucast c :: 8 word) :: 16 word) = unat c"
    by (simp add: unsigned_ucast_eq unsigned_take_bit_eq)
  then show ?thesis by (simp add: word_unat_eq_iff)
qed

lemma buffer_keeps_binary_string:
  "list_all (\<lambda>c. c < 0x100) s \<Longrightarrow> map ucast (bufferFromBinary s) = s"
  by (induction s) (simp_all add: bufferFromBinary_def low_byte)

section \<open>Facts about the loop\<close>

lemma forParts_append:
  "forParts env dir (ps @ qs) st =
     (case forParts env dir ps st of
        (st', Some e) \<Rightarrow> (st', Some e)
      | (st', None) \<Rightarrow> forParts env dir qs st')"
  by (induction ps arbitrary: st) (auto split: prod.splits option.splits)

lemma loopBody_skipped: "skipped part \<Longrightarrow> loopBody env dir part st = (st, None)"
  by (simp add: loopBody_def)


lemma loopBody_processed:
  "\<not> skipped part \<Longrightarrow> split part (CRLF @ CRLF) = headerStr # bodyParts \<Longrightarrow>
   loopBody env dir part st =
     (if includesStr headerStr (js ''filename='') then
        (case filenameMatch headerStr of
           None \<Rightarrow> (st, None)
         | Some originalFilename \<Rightarrow>
             storeFile env dir originalFilename (join bodyParts (CRLF @ CRLF)) st)
      else
        (case nameMatch headerStr of
           None \<Rightarrow> (st, None)
         | Some fieldName \<Rightarrow> storeField fieldName (join bodyParts (CRLF @ CRLF)) st))"
  by (simp add: loopBody_def)

lemma filenameMatch_includes: "filenameMatch h = Some fn \<Longrightarrow> includesStr h (js ''filename='')"
  by (simp add: filenameMatch_def includesStr_iff searchQuoted_sublist)




section \<open>The header block and the body block\<close>







section \<open>The boundary\<close>

lemma boundaryAt_sublist: "boundaryAt s = Some m \<Longrightarrow> sublist (js ''boundary='') s"
  by (auto simp: boundaryAt_def split: if_splits)

lemma matchBoundary_sublist: "matchBoundary s = Some m \<Longrightarrow> sublist (js ''boundary='') s"
  by (induction s) (auto split: option.splits dest: boundaryAt_sublist simp: sublist_Cons_right)

lemma no_boundary_parameter: "\<not> includesStr ct (js ''boundary='') \<Longrightarrow> matchBoundary ct = None"
  using matchBoundary_sublist[of ct] by (cases "matchBoundary ct") (auto simp: includesStr_iff)

text \<open>
  The regular expression finds no boundary exactly when every \<^verbatim>\<open>boundary=\<close> of the
  content type is followed by the end of the string or by a semicolon.
\<close>

lemma boundaryAt_None_iff:
  "boundaryAt s = None \<longleftrightarrow>
     \<not> prefix (js ''boundary='') s \<or> drop 9 s = [] \<or> hd (drop 9 s) = semicolon"
proof (cases "prefix (js ''boundary='') s")
  case False
  then show ?thesis by (simp add: boundaryAt_def)
next
  case True
  then obtain z where s: "s = js ''boundary='' @ z" by (auto simp: prefix_def)
  have d: "drop 9 s = z" by (simp add: s js_def)
  show ?thesis
  proof (cases "quotedAt (js ''boundary='') s")
    case None
    with True show ?thesis by (auto simp: boundaryAt_def d takeWhile_eq_Nil_iff)
  next
    case (Some q)
    then have "prefix (js ''boundary='' @ [quote]) s" by (auto simp: quotedAt_def split: if_splits)
    then have "z \<noteq> [] \<and> hd z = quote" by (auto simp: s prefix_def)
    with True Some show ?thesis by (auto simp: boundaryAt_def d quote_def semicolon_def)
  qed
qed

lemma matchBoundary_None_positions:
  "matchBoundary ct = None \<longleftrightarrow> (\<forall>i\<le>length ct. boundaryAt (drop i ct) = None)"
proof (induction ct)
  case Nil
  then show ?case by simp
next
  case (Cons c cs)
  have "(\<forall>i\<le>length (c # cs). boundaryAt (drop i (c # cs)) = None) \<longleftrightarrow>
        boundaryAt (c # cs) = None \<and> (\<forall>i\<le>length cs. boundaryAt (drop i cs) = None)"
  proof
    assume h: "\<forall>i\<le>length (c # cs). boundaryAt (drop i (c # cs)) = None"
    have "boundaryAt (drop 0 (c # cs)) = None" using h by blast
    moreover have "boundaryAt (drop i cs) = None" if "i \<le> length cs" for i
      using h[rule_format, of "Suc i"] that by simp
    ultimately show "boundaryAt (c # cs) = None \<and> (\<forall>i\<le>length cs. boundaryAt (drop i cs) = None)"
      by simp
  next
    assume h: "boundaryAt (c # cs) = None \<and> (\<forall>i\<le>length cs. boundaryAt (drop i cs) = None)"
    show "\<forall>i\<le>length (c # cs). boundaryAt (drop i (c # cs)) = None"
    proof (intro allI impI)
      fix i assume "i \<le> length (c # cs)"
      with h show "boundaryAt (drop i (c # cs)) = None" by (cases i) auto
    qed
  qed
  with Cons show ?case by (auto split: option.splits)
qed

lemma matchBoundary_None_iff:
  "matchBoundary ct = None \<longleftrightarrow>
     (\<forall>i\<le>length ct. prefix (js ''boundary='') (drop i ct) \<longrightarrow>
        drop (i + 9) ct = [] \<or> hd (drop (i + 9) ct) = semicolon)"
  by (auto simp: matchBoundary_None_positions boundaryAt_None_iff add.commute)

text \<open>
  Claim C5. When the regular expression for the boundary parameter does not match the
  content type, the handler throws before it looks at the data: whatever the data, no
  mapping is assigned, \<^verbatim>\<open>next()\<close> is not called, the world is unchanged and the client
  gets the error response.
\<close>

theorem missing_boundary_fails_before_parsing:
  assumes "matchBoundary ct = None"
  shows "onEnd env dir (Some ct) data w =
           \<lparr>body = None, reqFiles = None, nextCalled = False,
            response = Some (400, js ''Error processing form data''),
            logged = Some (Error ''No boundary found''), finalWorld = w\<rparr>"
  using assms by (simp add: onEnd_def caught_def)

theorem missing_boundary_fails_before_parsing_witness:
  "matchBoundary (js ''multipart/form-data'') = None \<and>
   (\<forall>data. body (onEnd demoEnv (js ''up'') (Some (js ''multipart/form-data'')) data (0, [])) = None \<and>
     reqFiles (onEnd demoEnv (js ''up'') (Some (js ''multipart/form-data'')) data (0, [])) = None \<and>
     \<not> nextCalled (onEnd demoEnv (js ''up'') (Some (js ''multipart/form-data'')) data (0, [])) \<and>
     finalWorld (onEnd demoEnv (js ''up'') (Some (js ''multipart/form-data'')) data (0, [])) = (0, []))"
proof -
  have h: "matchBoundary (js ''multipart/form-data'') = None"
    by (simp add: js_def boundaryAt_def)
  show ?thesis
    using h missing_boundary_fails_before_parsing[OF h, of demoEnv "js ''up''" _ "(0, [])"]
    by simp
qed

section \<open>Parts that store nothing\<close>

text \<open>
  A match for \<^verbatim>\<open>filename="..."\<close> holds one for \<^verbatim>\<open>name="..."\<close>, four code units
  later: a header block without the second has neither.
\<close>

lemma no_name_no_filename:
  assumes "nameMatch headerStr = None"
  shows "filenameMatch headerStr = None"
proof (rule ccontr)
  assume "filenameMatch headerStr \<noteq> None"
  then obtain i where i: "i \<le> length headerStr"
    and q: "quotedAt (js ''filename='') (drop i headerStr) \<noteq> None"
    by (auto simp: filenameMatch_def searchQuoted_None_positions)
  then obtain m where "quotedAt (js ''file'' @ js ''name='') (drop i headerStr) = Some m"
    by (auto simp: js_def)
  from quotedAt_shift[OF this]
  have "quotedAt (js ''name='') (drop (length (js ''file'')) (drop i headerStr)) = Some m" .
  moreover have "length (js ''file'') = 4" by (simp add: js_def)
  ultimately have m: "quotedAt (js ''name='') (drop (4 + i) headerStr) = Some m"
    by (simp only: drop_drop)
  then have "4 + i \<le> length headerStr" by (cases "4 + i \<le> length headerStr") (auto simp: quotedAt_def)
  with m assms show False by (auto simp: nameMatch_def searchQuoted_None_positions)
qed

text \<open>
  Claim C8. A part whose header block matches neither \<^verbatim>\<open>filename="..."\<close> nor
  \<^verbatim>\<open>name="..."\<close> leaves both mappings and the world as they are and throws nothing,
  so the loop goes on with the remaining parts as if the part were not there.
\<close>

theorem part_without_attributes_is_ignored:
  assumes "split part (CRLF @ CRLF) = headerStr # bodyParts"
    and "filenameMatch headerStr = None"
    and "nameMatch headerStr = None"
  shows "loopBody env dir part st = (st, None) \<and>
         forParts env dir (part # parts) st = forParts env dir parts st"
proof -
  have "loopBody env dir part st = (st, None)"
  proof (cases "skipped part")
    case True
    then show ?thesis by (rule loopBody_skipped)
  next
    case False
    then show ?thesis using loopBody_processed[OF False assms(1), of env dir st] assms(2,3) by simp
  qed
  then show ?thesis by simp
qed

theorem part_without_attributes_is_ignored_witness:
  "split (CRLF @ js ''X-Note: none'' @ CRLF @ CRLF @ js ''z'' @ CRLF) (CRLF @ CRLF) =
     [CRLF @ js ''X-Note: none'', js ''z'' @ CRLF] \<and>
   loopBody demoEnv (js ''up'') (CRLF @ js ''X-Note: none'' @ CRLF @ CRLF @ js ''z'' @ CRLF) emptyState =
     (emptyState, None) \<and>
   body (onEnd demoEnv (js ''up'') (Some (js ''boundary=B'')) bareBody (0, [])) =
     Some [(js ''x'', js ''a'')]"
proof -
  have sp: "split (CRLF @ js ''X-Note: none'' @ CRLF @ CRLF @ js ''z'' @ CRLF) (CRLF @ CRLF) =
     [CRLF @ js ''X-Note: none'', js ''z'' @ CRLF]"
    by (simp add: split_def splitAt.simps js_def CRLF_def)
  have fm: "filenameMatch (CRLF @ js ''X-Note: none'') = None"
    by (simp add: filenameMatch_def js_def CRLF_def quotedAt_def)
  have nm: "nameMatch (CRLF @ js ''X-Note: none'') = None"
    by (simp add: nameMatch_def js_def CRLF_def quotedAt_def)
  have ex: "body (onEnd demoEnv (js ''up'') (Some (js ''boundary=B'')) bareBody (0, [])) =
     Some [(js ''x'', js ''a'')]"
    by code_simp
  show ?thesis
    using part_without_attributes_is_ignored[OF sp fm nm, of demoEnv "js ''up''" emptyState] sp ex
    by simp
qed

text \<open>
  Claim C9. A part whose header block includes \<^verbatim>\<open>filename=\<close> without a match for
  \<^verbatim>\<open>filename="..."\<close> stores nothing: the field branch is not tried, whatever
  \<^verbatim>\<open>name="..."\<close> attribute the header block holds.
\<close>

theorem unquoted_filename_part_yields_nothing:
  assumes "split part (CRLF @ CRLF) = headerStr # bodyParts"
    and "includesStr headerStr (js ''filename='')"
    and "filenameMatch headerStr = None"
  shows "loopBody env dir part st = (st, None)"
proof (cases "skipped part")
  case True
  then show ?thesis by (rule loopBody_skipped)
next
  case False
  then show ?thesis using loopBody_processed[OF False assms(1), of env dir st] assms(2,3) by simp
qed

theorem unquoted_filename_part_yields_nothing_witness:
  "nameMatch (CRLF @ js ''name=\"x\"; filename=doc.pdf'') = Some (js ''x'') \<and>
   loopBody demoEnv (js ''up'')
     (CRLF @ js ''name=\"x\"; filename=doc.pdf'' @ CRLF @ CRLF @ js ''a'' @ CRLF) emptyState =
     (emptyState, None)"
proof -
  have sp: "split (CRLF @ js ''name=\"x\"; filename=doc.pdf'' @ CRLF @ CRLF @ js ''a'' @ CRLF) (CRLF @ CRLF) =
     [CRLF @ js ''name=\"x\"; filename=doc.pdf'', js ''a'' @ CRLF]"
    by (simp add: split_def splitAt.simps js_def CRLF_def)
  have inc: "includesStr (CRLF @ js ''name=\"x\"; filename=doc.pdf'') (js ''filename='')"
    by (simp add: includesStr_def js_def CRLF_def)
  have fm: "filenameMatch (CRLF @ js ''name=\"x\"; filename=doc.pdf'') = None"
    by (simp add: filenameMatch_def js_def CRLF_def quotedAt_def quote_def)
  have nm: "nameMatch (CRLF @ js ''name=\"x\"; filename=doc.pdf'') = Some (js ''x'')"
    by (simp add: nameMatch_def js_def CRLF_def quotedAt_def quote_def)
  show ?thesis
    using unquoted_filename_part_yields_nothing[OF sp inc fm, of demoEnv "js ''up''" emptyState] nm
    by simp
qed

section \<open>The trailing line terminator\<close>

text \<open>
  Claim C10. When the body block of a processed part holds no line terminator at all,
  \<^verbatim>\<open>lastIndexOf\<close> is -1 and the substring is empty: a field is assigned the empty
  string, and a file is written with no bytes and recorded with size 0, whatever the
  body block holds.
\<close>

theorem body_without_terminator_decodes_empty:
  assumes "\<not> skipped part"
    and "split part (CRLF @ CRLF) = headerStr # bodyParts"
    and "\<not> includesStr (join bodyParts (CRLF @ CRLF)) CRLF"
  shows "(\<not> includesStr headerStr (js ''filename='') \<and> nameMatch headerStr = Some fieldName \<longrightarrow>
            loopBody env dir part st =
              (st\<lparr>fieldsObj := setProp (fieldsObj st) fieldName []\<rparr>, None)) \<and>
         (filenameMatch headerStr = Some originalFilename \<and>
          randomBytes env 16 (world st) = (bytes, w1) \<and>
          writeFileSync env (pathJoin env dir (toHex bytes @ extname env originalFilename)) [] w1 =
            (None, w2) \<longrightarrow>
            loopBody env dir part st =
              (st\<lparr>filesObj := setProp (filesObj st) originalFilename
                     \<lparr>rec_filename = toHex bytes @ extname env originalFilename,
                      rec_originalFilename = originalFilename,
                      rec_size = 0,
                      rec_path = pathJoin env dir (toHex bytes @ extname env originalFilename)\<rparr>,
                   world := w2\<rparr>, None))"
proof -
  note lb = loopBody_processed[OF assms(1,2), of env dir st]
  note em = strip_unterminated[OF assms(3)]
  show ?thesis
  proof (intro conjI impI)
    assume "\<not> includesStr headerStr (js ''filename='') \<and> nameMatch headerStr = Some fieldName"
    then show "loopBody env dir part st =
              (st\<lparr>fieldsObj := setProp (fieldsObj st) fieldName []\<rparr>, None)"
      using lb em by (simp add: storeField_def)
  next
    assume h: "filenameMatch headerStr = Some originalFilename \<and>
          randomBytes env 16 (world st) = (bytes, w1) \<and>
          writeFileSync env (pathJoin env dir (toHex bytes @ extname env originalFilename)) [] w1 =
            (None, w2)"
    then have "includesStr headerStr (js ''filename='')" by (simp add: filenameMatch_includes)
    with h show "loopBody env dir part st =
              (st\<lparr>filesObj := setProp (filesObj st) originalFilename
                     \<lparr>rec_filename = toHex bytes @ extname env originalFilename,
                      rec_originalFilename = originalFilename,
                      rec_size = 0,
                      rec_path = pathJoin env dir (toHex bytes @ extname env originalFilename)\<rparr>,
                   world := w2\<rparr>, None)"
      using lb em by (simp add: storeFile_def bufferFromBinary_def Let_def)
  qed
qed

theorem body_without_terminator_decodes_empty_witness:
  "fieldsObj (fst (loopBody demoEnv (js ''up'') openField emptyState)) = [(js ''x'', [])] \<and>
   map_option rec_size (map_of (filesObj (fst (loopBody demoEnv (js ''up'') openFile emptyState))) (js ''f'')) = Some 0 \<and>
   map snd (snd (world (fst (loopBody demoEnv (js ''up'') openFile emptyState)))) = [[]]"
proof -
  have s1: "\<not> skipped openField"
    by (simp add: skipped_def openField_def js_def CRLF_def trim_def isWhiteSpace_def includesStr_def)
  have p1: "split openField (CRLF @ CRLF) = [CRLF @ js ''name=\"x\"'', js ''abc'']"
    by (simp add: split_def splitAt.simps openField_def js_def CRLF_def)
  have n1: "\<not> includesStr (join [js ''abc''] (CRLF @ CRLF)) CRLF"
    by (simp add: includesStr_def js_def CRLF_def)
  have f1: "\<not> includesStr (CRLF @ js ''name=\"x\"'') (js ''filename='') \<and>
            nameMatch (CRLF @ js ''name=\"x\"'') = Some (js ''x'')"
    by (simp add: includesStr_def nameMatch_def quotedAt_def quote_def js_def CRLF_def)
  have s2: "\<not> skipped openFile"
    by (simp add: skipped_def openFile_def js_def CRLF_def trim_def isWhiteSpace_def includesStr_def)
  have p2: "split openFile (CRLF @ CRLF) = [CRLF @ js ''filename=\"f\"'', js ''abc'']"
    by (simp add: split_def splitAt.simps openFile_def js_def CRLF_def)
  have f2: "filenameMatch (CRLF @ js ''filename=\"f\"'') = Some (js ''f'') \<and>
            randomBytes demoEnv 16 (world emptyState) = (replicate 16 0, (1, [])) \<and>
            writeFileSync demoEnv
              (pathJoin demoEnv (js ''up'') (toHex (replicate 16 0) @ extname demoEnv (js ''f''))) []
              (1, []) =
            (None, (1, [(pathJoin demoEnv (js ''up'') (toHex (replicate 16 0) @ extname demoEnv (js ''f'')), [])]))"
    by (simp add: filenameMatch_def quotedAt_def quote_def js_def CRLF_def demoEnv_def emptyState_def)
  have nm: "js ''x'' \<noteq> js ''__proto__''" "js ''f'' \<noteq> js ''__proto__''" by (simp_all add: js_def)
  note a = body_without_terminator_decodes_empty[OF s1 p1 n1, THEN conjunct1, rule_format, OF f1,
      of demoEnv "js ''up''" emptyState]
  note b = body_without_terminator_decodes_empty[OF s2 p2 n1, THEN conjunct2, rule_format, OF f2]
  show ?thesis
    unfolding a b using nm by (simp add: setProp_def emptyState_def)
qed

text \<open>
  A body block that ends with a line terminator loses exactly that terminator
  (\<open>strip_terminated\<close>). Without one it is cut all the same.
\<close>

text \<open>
  Claim C3 at a body block without a trailing line terminator: the body block of the
  field \<^verbatim>\<open>x\<close> is \<^verbatim>\<open>a\r\nb\<close>, which the claim leaves unchanged, and the value
  stored is \<^verbatim>\<open>a\<close>, the body block up to its last line terminator.
\<close>

theorem unterminated_body_block_is_cut_at_last_crlf:
  "split unterminatedBody (js ''--B'') =
     [[], CRLF @ js ''name=\"x\"'' @ CRLF @ CRLF @ js ''a'' @ CRLF @ js ''b'', js ''--'' @ CRLF] \<and>
   split (CRLF @ js ''name=\"x\"'' @ CRLF @ CRLF @ js ''a'' @ CRLF @ js ''b'') (CRLF @ CRLF) =
     [CRLF @ js ''name=\"x\"'', js ''a'' @ CRLF @ js ''b''] \<and>
   body (onEnd demoEnv (js ''up'') (Some (js ''boundary=B'')) unterminatedBody (0, [])) =
     Some [(js ''x'', js ''a'')]"
  by code_simp

section \<open>Exceptions\<close>

text \<open>
  Claim C7. When the loop body throws on some part, after the parts before it were
  processed without an exception, the handler ends in the \<^verbatim>\<open>catch\<close> block: neither
  \<^verbatim>\<open>req.body\<close> nor \<^verbatim>\<open>req.files\<close> is assigned, \<^verbatim>\<open>next()\<close> is not called and
  the error response is sent, whatever the earlier parts had stored.
\<close>

theorem exception_aborts_without_mappings:
  assumes "matchBoundary ct = Some m"
    and "split data (js ''--'' @ template (orElse (fst m) (snd m))) = before @ part # after"
    and "forParts env dir before \<lparr>filesObj = [], fieldsObj = [], world = w\<rparr> = (st1, None)"
    and "loopBody env dir part st1 = (st2, Some e)"
  shows "onEnd env dir (Some ct) data w =
           \<lparr>body = None, reqFiles = None, nextCalled = False,
            response = Some (400, js ''Error processing form data''),
            logged = Some e, finalWorld = world st2\<rparr>"
proof -
  have "forParts env dir (before @ part # after) \<lparr>filesObj = [], fieldsObj = [], world = w\<rparr> =
          (st2, Some e)"
    using assms(3,4) by (simp add: forParts_append)
  then show ?thesis using assms(1,2) by (simp add: onEnd_def caught_def)
qed

theorem exception_aborts_without_mappings_witness:
  "fieldsObj (fst (forParts fullDiskEnv (js ''up'')
      [[], CRLF @ js ''name=\"x\"'' @ CRLF @ CRLF @ js ''a'' @ CRLF] emptyState)) = [(js ''x'', js ''a'')] \<and>
   body (onEnd fullDiskEnv (js ''up'') (Some (js ''boundary=B'')) fieldThenFile (0, [])) = None \<and>
   reqFiles (onEnd fullDiskEnv (js ''up'') (Some (js ''boundary=B'')) fieldThenFile (0, [])) = None \<and>
   \<not> nextCalled (onEnd fullDiskEnv (js ''up'') (Some (js ''boundary=B'')) fieldThenFile (0, [])) \<and>
   response (onEnd fullDiskEnv (js ''up'') (Some (js ''boundary=B'')) fieldThenFile (0, [])) =
     Some (400, js ''Error processing form data'')"
proof -
  have mb: "matchBoundary (js ''boundary=B'') = Some (None, Some (js ''B''))"
    by (simp add: boundaryAt_def quotedAt_def quote_def semicolon_def js_def)
  have sp: "split fieldThenFile (js ''--'' @ template (orElse (fst (None, Some (js ''B''))) (snd (None, Some (js ''B''))))) =
        [[], CRLF @ js ''name=\"x\"'' @ CRLF @ CRLF @ js ''a'' @ CRLF] @
        (CRLF @ js ''filename=\"f\"'' @ CRLF @ CRLF @ js ''b'' @ CRLF) # [js ''--'' @ CRLF]"
    by (simp add: split_def splitAt.simps fieldThenFile_def template_def orElse_def js_def CRLF_def)
  have fp: "forParts fullDiskEnv (js ''up'')
      [[], CRLF @ js ''name=\"x\"'' @ CRLF @ CRLF @ js ''a'' @ CRLF]
      \<lparr>filesObj = [], fieldsObj = [], world = (0, [])\<rparr> =
      (\<lparr>filesObj = [], fieldsObj = [(js ''x'', js ''a'')], world = (0, [])\<rparr>, None)"
    by code_simp
  have lb: "loopBody fullDiskEnv (js ''up'') (CRLF @ js ''filename=\"f\"'' @ CRLF @ CRLF @ js ''b'' @ CRLF)
      \<lparr>filesObj = [], fieldsObj = [(js ''x'', js ''a'')], world = (0, [])\<rparr> =
      (\<lparr>filesObj = [], fieldsObj = [(js ''x'', js ''a'')], world = (1, [])\<rparr>, Some (SystemError ''ENOSPC''))"
    by code_simp
  show ?thesis
    unfolding exception_aborts_without_mappings[OF mb sp fp lb]
    using fp by (simp add: emptyState_def)
qed

section \<open>Skipped parts\<close>





section \<open>Parts that share a key\<close>






section \<open>Well-formed bodies decode to their parts\<close>










































end
